theory Spec2Isabelle
  imports Main "HOL-Library.Monad_Syntax"
begin

section \<open>Text: characters, digits, slices\<close>

text \<open>
  Strings are ASCII character lists. The two control characters the program prints
  are named, since a string literal cannot hold them.
\<close>

definition TAB :: char where
  "TAB = char_of (9::nat)"

definition NL :: char where
  "NL = char_of (10::nat)"

definition is_digit :: "char \<Rightarrow> bool" where
  "is_digit c = (48 \<le> (of_char c :: nat) \<and> (of_char c :: nat) \<le> 57)"

definition digit_val :: "char \<Rightarrow> int" where
  "digit_val c = int (of_char c) - 48"

definition digit_char :: "int \<Rightarrow> char" where
  "digit_char n = char_of (48 + nat (n mod 10))"

text \<open>\<open>"%02d"\<close>, \<open>"%04d"\<close> and \<open>"%06d"\<close> on a number that fits the width.\<close>

definition pad2 :: "int \<Rightarrow> string" where
  "pad2 n = [digit_char (n div 10), digit_char n]"

definition pad4 :: "int \<Rightarrow> string" where
  "pad4 n = [digit_char (n div 1000), digit_char (n div 100), digit_char (n div 10), digit_char n]"

definition pad6 :: "int \<Rightarrow> string" where
  "pad6 n = [digit_char (n div 100000), digit_char (n div 10000), digit_char (n div 1000),
             digit_char (n div 100), digit_char (n div 10), digit_char n]"

text \<open>\<open>"%d"\<close> on an integer.\<close>

function str_nat :: "nat \<Rightarrow> string" where
  "str_nat n = (if n < 10 then [digit_char (int n)] else str_nat (n div 10) @ [digit_char (int n)])"
  by pat_completeness auto
termination
  by (relation "measure id") auto

definition str_int :: "int \<Rightarrow> string" where
  "str_int i = (if i < 0 then CHR ''-'' # str_nat (nat (- i)) else str_nat (nat i))"

text \<open>
  Python's \<open>s[:i]\<close>: a negative bound counts from the end, and a bound outside the
  string is clamped.
\<close>

definition slice_to :: "string \<Rightarrow> int \<Rightarrow> string" where
  "slice_to s i = (if i < 0 then take (nat (int (length s) + i)) s else take (nat i) s)"

text \<open>\<open>s.rfind(c)\<close> for a single character: the highest index of \<open>c\<close>, or -1.\<close>

definition rfind :: "string \<Rightarrow> char \<Rightarrow> int" where
  "rfind s c =
     (if c \<in> set s then int (length s) - 1 - int (length (takeWhile (\<lambda>x. x \<noteq> c) (rev s)))
      else - 1)"

text \<open>\<open>s.replace("Z", "+0000")\<close>: every occurrence is replaced.\<close>

definition replace_Z :: "string \<Rightarrow> string" where
  "replace_Z s = concat (map (\<lambda>c. if c = CHR ''Z'' then ''+0000'' else [c]) s)"

section \<open>The proleptic Gregorian calendar of Python's datetime\<close>

definition is_leap :: "int \<Rightarrow> bool" where
  "is_leap y = (y mod 4 = 0 \<and> (y mod 100 \<noteq> 0 \<or> y mod 400 = 0))"

definition days_before_year :: "int \<Rightarrow> int" where
  "days_before_year year = (let y = year - 1 in y * 365 + y div 4 - y div 100 + y div 400)"

definition DAYS_IN_MONTH :: "int \<Rightarrow> int" where
  "DAYS_IN_MONTH m =
     (if m = 2 then 28 else if m = 4 \<or> m = 6 \<or> m = 9 \<or> m = 11 then 30 else 31)"

definition DAYS_BEFORE_MONTH :: "int \<Rightarrow> int" where
  "DAYS_BEFORE_MONTH m =
     (if m = 1 then 0 else if m = 2 then 31 else if m = 3 then 59 else if m = 4 then 90
      else if m = 5 then 120 else if m = 6 then 151 else if m = 7 then 181
      else if m = 8 then 212 else if m = 9 then 243 else if m = 10 then 273
      else if m = 11 then 304 else 334)"

definition days_in_month :: "int \<Rightarrow> int \<Rightarrow> int" where
  "days_in_month year month = (if month = 2 \<and> is_leap year then 29 else DAYS_IN_MONTH month)"

definition days_before_month :: "int \<Rightarrow> int \<Rightarrow> int" where
  "days_before_month year month =
     DAYS_BEFORE_MONTH month + (if month > 2 \<and> is_leap year then 1 else 0)"

text \<open>Day 1 is 1 January of year 1.\<close>

definition ymd2ord :: "int \<Rightarrow> int \<Rightarrow> int \<Rightarrow> int" where
  "ymd2ord year month day = days_before_year year + days_before_month year month + day"

definition ord2ymd :: "int \<Rightarrow> int \<times> int \<times> int" where
  "ord2ymd ordinal =
     (let n = ordinal - 1;
          n400 = n div 146097; n = n mod 146097;
          n100 = n div 36524; n = n mod 36524;
          n4 = n div 1461; n = n mod 1461;
          n1 = n div 365; n = n mod 365;
          year = n400 * 400 + 1 + n100 * 100 + n4 * 4 + n1
      in if n1 = 4 \<or> n100 = 4 then (year - 1, 12, 31)
         else
           let leapyear = (n1 = 3 \<and> (n4 \<noteq> 24 \<or> n100 = 3));
               month = (n + 50) div 32;
               preceding = DAYS_BEFORE_MONTH month + (if month > 2 \<and> leapyear then 1 else 0)
           in if preceding > n
              then let month = month - 1;
                       preceding = preceding
                         - (DAYS_IN_MONTH month + (if month = 2 \<and> leapyear then 1 else 0))
                   in (year, month, n - preceding + 1)
              else (year, month, n - preceding + 1))"

section \<open>Aware datetimes\<close>

text \<open>
  A timezone-aware \<open>datetime\<close> is the instant it denotes, in microseconds since
  0001-01-01T00:00:00 UTC, with the offset of its timezone, in microseconds. Its calendar
  fields are those of the local time \<open>utc_us + utcoff\<close>. Comparison of aware datetimes
  and subtraction compare and subtract the instants.
\<close>

record datetime =
  utc_us :: int
  utcoff :: int

definition US_PER_DAY :: int where
  "US_PER_DAY = 86400000000"

definition local_us :: "datetime \<Rightarrow> int" where
  "local_us d = utc_us d + utcoff d"

definition dt_lt :: "datetime \<Rightarrow> datetime \<Rightarrow> bool" where
  "dt_lt a b = (utc_us a < utc_us b)"

definition dt_le :: "datetime \<Rightarrow> datetime \<Rightarrow> bool" where
  "dt_le a b = (utc_us a \<le> utc_us b)"

text \<open>
  The years 1 to 9999 are all a \<open>datetime\<close> can hold: the local day number lies
  between 1 and \<open>_MAXORDINAL\<close>.
\<close>

definition MAXORDINAL :: int where
  "MAXORDINAL = 3652059"

definition in_range :: "int \<Rightarrow> bool" where
  "in_range us = (0 < us div US_PER_DAY + 1 \<and> us div US_PER_DAY + 1 \<le> MAXORDINAL)"

text \<open>
  The exceptions of the program: \<open>ValueError\<close> from \<open>strptime\<close>,
  \<open>OverflowError\<close> from datetime arithmetic, and the
  \<open>ValueError("There is more than one event with matching names, ...")\<close> that
  \<open>update_calendar_events\<close> raises itself, kept apart from the parser's.
\<close>

datatype error = ValueError | OverflowError | MoreThanOneEvent

text \<open>\<open>d + datetime.timedelta(minutes=m)\<close>, which raises when the result leaves the range.\<close>

definition plus_minutes :: "datetime \<Rightarrow> int \<Rightarrow> error + datetime" where
  "plus_minutes d m =
     (if in_range (local_us d + m * 60000000)
      then Inr (d\<lparr>utc_us := utc_us d + m * 60000000\<rparr>)
      else Inl OverflowError)"

text \<open>The offset as \<open>isoformat\<close> writes it.\<close>

definition format_offset :: "int \<Rightarrow> string" where
  "format_offset off =
     (let sign = (if off < 0 then CHR ''-'' else CHR ''+'');
          a = (if off < 0 then - off else off);
          hh = a div 3600000000; r = a mod 3600000000;
          mm = r div 60000000; ss = r mod 60000000
      in sign # pad2 hh @ '':'' @ pad2 mm
         @ (if ss \<noteq> 0
            then '':'' @ pad2 (ss div 1000000)
                 @ (if ss mod 1000000 \<noteq> 0 then ''.'' @ pad6 (ss mod 1000000) else [])
            else []))"

text \<open>
  \<open>d.isoformat()\<close>: the local date and time, the microseconds only when they are
  not zero, then the offset.
\<close>

definition isoformat :: "datetime \<Rightarrow> string" where
  "isoformat d =
     (let l = local_us d;
          ymd = ord2ymd (l div US_PER_DAY + 1);
          t = l mod US_PER_DAY;
          us = t mod 1000000; s = t div 1000000
      in pad4 (fst ymd) @ ''-'' @ pad2 (fst (snd ymd)) @ ''-'' @ pad2 (snd (snd ymd)) @ ''T''
         @ pad2 (s div 3600) @ '':'' @ pad2 (s mod 3600 div 60) @ '':'' @ pad2 (s mod 60)
         @ (if us \<noteq> 0 then ''.'' @ pad6 us else [])
         @ format_offset (utcoff d))"

text \<open>\<open>datetime(y, m, d, hh, mm, ss, us, tzinfo=timezone.utc)\<close>, for writing examples.\<close>

definition utc_datetime :: "int \<Rightarrow> int \<Rightarrow> int \<Rightarrow> int \<Rightarrow> int \<Rightarrow> int \<Rightarrow> int \<Rightarrow> datetime" where
  "utc_datetime y m d hh mm ss us =
     \<lparr>utc_us = (((ymd2ord y m d - 1) * 24 + hh) * 60 + mm) * 60000000 + ss * 1000000 + us,
      utcoff = 0\<rparr>"

section \<open>Parsing: \<open>strptime\<close> with the format \<open>%Y-%m-%dT%H:%M:%S%z\<close>\<close>

text \<open>
  \<open>strptime\<close> compiles the format to a regular expression, one alternation per
  directive, and matches it at the start of the text. Every directive here is followed by
  a character that is not a digit, so the first alternative that matches is the only one
  that can lead to a match. \<open>num2 lo hi lo1\<close> is a directive of two digits with a value
  from \<open>lo\<close> to \<open>hi\<close>, or else of one digit that is at least \<open>lo1\<close>
  (with \<open>lo1 = 10\<close> there is no one-digit alternative).
\<close>

definition num2 :: "int \<Rightarrow> int \<Rightarrow> int \<Rightarrow> string \<Rightarrow> (int \<times> string) option" where
  "num2 lo hi lo1 s =
     (case s of
        [] \<Rightarrow> None
      | [c1] \<Rightarrow> if is_digit c1 \<and> lo1 \<le> digit_val c1 then Some (digit_val c1, []) else None
      | c1 # c2 # r \<Rightarrow>
          if is_digit c1 \<and> is_digit c2 \<and> lo \<le> 10 * digit_val c1 + digit_val c2
             \<and> 10 * digit_val c1 + digit_val c2 \<le> hi
          then Some (10 * digit_val c1 + digit_val c2, r)
          else if is_digit c1 \<and> lo1 \<le> digit_val c1 then Some (digit_val c1, c2 # r)
          else None)"

text \<open>\<open>%Y\<close> is \<open>\d\d\d\d\<close>.\<close>

definition directive_Y :: "string \<Rightarrow> (int \<times> string) option" where
  "directive_Y s =
     (case s of
        c1 # c2 # c3 # c4 # r \<Rightarrow>
          if is_digit c1 \<and> is_digit c2 \<and> is_digit c3 \<and> is_digit c4
          then Some (1000 * digit_val c1 + 100 * digit_val c2 + 10 * digit_val c3 + digit_val c4, r)
          else None
      | _ \<Rightarrow> None)"

text \<open>\<open>%d\<close> is \<open>3[0-1]|[1-2]\d|0[1-9]|[1-9]| [1-9]\<close>: a space may stand for the first digit.\<close>

definition directive_d :: "string \<Rightarrow> (int \<times> string) option" where
  "directive_d s =
     (case num2 1 31 1 s of
        Some v \<Rightarrow> Some v
      | None \<Rightarrow>
          (case s of
             c1 # c2 # r \<Rightarrow>
               if c1 = CHR '' '' \<and> is_digit c2 \<and> 1 \<le> digit_val c2 then Some (digit_val c2, r)
               else None
           | _ \<Rightarrow> None))"

text \<open>A literal character of the format; the match ignores case, which tells on \<open>T\<close> only.\<close>

definition lit :: "char \<Rightarrow> string \<Rightarrow> string option" where
  "lit c s = (case s of [] \<Rightarrow> None | x # r \<Rightarrow> if x = c then Some r else None)"

definition lit_T :: "string \<Rightarrow> string option" where
  "lit_T s =
     (case s of [] \<Rightarrow> None | x # r \<Rightarrow> if x = CHR ''T'' \<or> x = CHR ''t'' then Some r else None)"

text \<open>The date and the time, and the text left for \<open>%z\<close>.\<close>

definition match_date_time :: "string \<Rightarrow> (int \<times> int \<times> int \<times> int \<times> int \<times> int \<times> string) option" where
  "match_date_time s =
     do {
       (y, r) \<leftarrow> directive_Y s;
       r \<leftarrow> lit (CHR ''-'') r;
       (m, r) \<leftarrow> num2 1 12 1 r;
       r \<leftarrow> lit (CHR ''-'') r;
       (d, r) \<leftarrow> directive_d r;
       r \<leftarrow> lit_T r;
       (hh, r) \<leftarrow> num2 0 23 0 r;
       r \<leftarrow> lit (CHR '':'') r;
       (mi, r) \<leftarrow> num2 0 59 0 r;
       r \<leftarrow> lit (CHR '':'') r;
       (ss, r) \<leftarrow> num2 0 61 0 r;
       Some (y, m, d, hh, mi, ss, r)
     }"

text \<open>
  \<open>%z\<close> is \<open>[+-]\d\d:?[0-5]\d(:?[0-5]\d(\.\d{1,6})?)?\<close>, and nothing may follow it.
  (Its other alternative, a capital \<open>Z\<close>, cannot occur: the caller has replaced every
  \<open>Z\<close>.) The colons must be used throughout or not at all, and the offset must be
  less than a day: everything else is a \<open>ValueError\<close>. The result is in microseconds.
\<close>

definition fraction :: "string \<Rightarrow> int option" where
  "fraction s =
     (if 1 \<le> length s \<and> length s \<le> 6 \<and> list_all is_digit s
      then Some (foldl (\<lambda>a c. 10 * a + digit_val c) 0 (s @ replicate (6 - length s) (CHR ''0'')))
      else None)"

definition skip_colon :: "string \<Rightarrow> bool \<times> string" where
  "skip_colon s = (case s of [] \<Rightarrow> (False, []) | x # r \<Rightarrow> if x = CHR '':'' then (True, r) else (False, s))"

definition offset_seconds :: "bool \<Rightarrow> string \<Rightarrow> (int \<times> int) option" where
  "offset_seconds colon1 s =
     (if s = [] then Some (0, 0)
      else
        let (colon2, r) = skip_colon s in
        case num2 0 59 10 r of
          None \<Rightarrow> None
        | Some (ss, r') \<Rightarrow>
            if colon1 \<noteq> colon2 then None
            else (case r' of
                    [] \<Rightarrow> Some (ss, 0)
                  | x # f \<Rightarrow> if x = CHR ''.'' then map_option (\<lambda>us. (ss, us)) (fraction f) else None))"

definition directive_z :: "string \<Rightarrow> error + int" where
  "directive_z s =
     (case s of
        [] \<Rightarrow> Inl ValueError
      | sg # r0 \<Rightarrow>
          if sg \<noteq> CHR ''+'' \<and> sg \<noteq> CHR ''-'' then Inl ValueError
          else
            (case num2 0 99 10 r0 of
               None \<Rightarrow> Inl ValueError
             | Some (hh, r1) \<Rightarrow>
                 let (colon1, r2) = skip_colon r1 in
                 (case num2 0 59 10 r2 of
                    None \<Rightarrow> Inl ValueError
                  | Some (mm, r3) \<Rightarrow>
                      (case offset_seconds colon1 r3 of
                         None \<Rightarrow> Inl ValueError
                       | Some (ss, us) \<Rightarrow>
                           let off = ((hh * 60 + mm) * 60 + ss) * 1000000 + us in
                           if off < US_PER_DAY
                           then Inr (if sg = CHR ''-'' then - off else off)
                           else Inl ValueError))))"

text \<open>
  The parsed fields make a datetime when the year is not 0, the day exists in its month
  and the second is below 60.
\<close>

definition strptime :: "string \<Rightarrow> error + datetime" where
  "strptime s =
     (case match_date_time s of
        None \<Rightarrow> Inl ValueError
      | Some (y, m, d, hh, mi, ss, r) \<Rightarrow>
          (case directive_z r of
             Inl e \<Rightarrow> Inl e
           | Inr off \<Rightarrow>
               if 1 \<le> y \<and> d \<le> days_in_month y m \<and> ss \<le> 59
               then Inr \<lparr>utc_us =
                           (((ymd2ord y m d - 1) * 24 + hh) * 60 + mi) * 60000000 + ss * 1000000 - off,
                         utcoff = off\<rparr>
               else Inl ValueError))"

definition from_google_date_to_datetime :: "string \<Rightarrow> error + datetime" where
  "from_google_date_to_datetime google_date = strptime (replace_Z google_date)"

section \<open>The data of the reconciliation\<close>

text \<open>
  \<open>project_settings\<close> and the class \<open>Match\<close> are not among the sources. The two
  settings the code reads are taken as parameters, and a match is the record of what the
  code reads of it: its name, \<open>match.time.start\<close>, the answers of
  \<open>is_still_going()\<close> and \<open>is_finished()\<close>, its colour, and the method
  \<open>status_from_color\<close> (followed by \<open>str\<close>).
\<close>

record settings =
  MATCH_DEFAULT_DURATION_MINUTES :: int
  MATCH_EXTEND_MINUTES :: int

record match =
  name :: string
  time_start :: datetime
  is_still_going :: bool
  is_finished :: bool
  color :: string
  status_from_color :: "string \<Rightarrow> string"

text \<open>
  A calendar event as the provider lists it: the keys the code reads of the dictionary,
  \<open>start_dateTime\<close> for \<open>event["start"]["dateTime"]\<close>.
\<close>

record event =
  ev_id :: string
  summary :: string
  start_dateTime :: string
  end_dateTime :: string
  colorId :: string

text \<open>The body that \<open>create_event\<close> inserts.\<close>

record event_body =
  body_summary :: string
  body_start :: string
  body_end :: string
  maxAttendees :: string
  guestsCanInviteOthers :: string
  guestsCanSeeOtherGuests :: string
  anyoneCanAddSelf :: string
  body_colorId :: string

text \<open>
  What a function did: the calls it made to the provider, in order, the texts it printed,
  one for each \<open>print\<close>, and the exception that ended it, if one did. The provider is
  taken to answer every call; its answer to an update is the function \<open>svc\<close> of the
  body sent.
\<close>

datatype call = Insert event_body | Update event

record run =
  calls :: "call list"
  printed :: "string list"
  raised :: "error option"

definition then_run :: "run \<Rightarrow> run \<Rightarrow> run" where
  "then_run a b =
     (if raised a = None
      then \<lparr>calls = calls a @ calls b, printed = printed a @ printed b, raised = raised b\<rparr>
      else a)"

section \<open>Comparing and reporting\<close>

definition different_start_times :: "event \<Rightarrow> string \<Rightarrow> bool" where
  "different_start_times old new =
     (slice_to (start_dateTime old) (- 1) \<noteq> slice_to new (rfind new (CHR ''+'')))"

definition different_end_times :: "event \<Rightarrow> string \<Rightarrow> bool" where
  "different_end_times old new =
     (slice_to (end_dateTime old) (- 1) \<noteq> slice_to new (rfind new (CHR ''+'')))"

definition different_colors :: "event \<Rightarrow> string \<Rightarrow> bool" where
  "different_colors old new = (colorId old \<noteq> new)"

text \<open>
  \<open>str\<close> of the \<open>timedelta\<close> between two instants, given in microseconds: the days
  when there are any, \<open>H:MM:SS\<close>, the microseconds when there are any.
\<close>

definition str_timedelta :: "int \<Rightarrow> string" where
  "str_timedelta us =
     (let days = us div US_PER_DAY;
          seconds = us mod US_PER_DAY div 1000000;
          microseconds = us mod 1000000
      in (if days \<noteq> 0
          then str_int days @ '' day'' @ (if abs days \<noteq> 1 then ''s'' else []) @ '', ''
          else [])
         @ str_int (seconds div 3600) @ '':'' @ pad2 (seconds mod 3600 div 60) @ '':''
         @ pad2 (seconds mod 60)
         @ (if microseconds \<noteq> 0 then ''.'' @ pad6 microseconds else []))"

definition show_if_different :: "string \<Rightarrow> string \<Rightarrow> string \<Rightarrow> bool \<Rightarrow> error + string" where
  "show_if_different word old new time =
     (if old \<noteq> new
      then
        let full_str = [TAB, TAB] @ ''old '' @ word @ '': '' @ old @ [NL]
                       @ [TAB, TAB] @ ''new '' @ word @ '': '' @ new @ [NL]
        in if time
           then (case from_google_date_to_datetime old of
                   Inl e \<Rightarrow> Inl e
                 | Inr old_dt \<Rightarrow>
                     (case from_google_date_to_datetime new of
                        Inl e \<Rightarrow> Inl e
                      | Inr new_dt \<Rightarrow>
                          Inr (full_str @ [TAB, TAB] @ ''diff: ''
                               @ str_timedelta (utc_us new_dt - utc_us old_dt) @ [NL])))
           else Inr full_str
      else Inr [])"

section \<open>Creating and updating events\<close>

definition create_event :: "settings \<Rightarrow> match \<Rightarrow> datetime \<Rightarrow> run" where
  "create_event cfg m now =
     (case plus_minutes (time_start m) (MATCH_DEFAULT_DURATION_MINUTES cfg) of
        Inl e \<Rightarrow> \<lparr>calls = [], printed = [], raised = Some e\<rparr>
      | Inr baseline \<Rightarrow>
          (case (if is_still_going m \<and> dt_lt baseline now
                 then plus_minutes now (MATCH_EXTEND_MINUTES cfg) else Inr baseline) of
             Inl e \<Rightarrow> \<lparr>calls = [], printed = [], raised = Some e\<rparr>
           | Inr match_time_end \<Rightarrow>
               \<lparr>calls = [Insert \<lparr>body_summary = name m,
                                  body_start = isoformat (time_start m),
                                  body_end = isoformat match_time_end,
                                  maxAttendees = ''100'',
                                  guestsCanInviteOthers = ''true'',
                                  guestsCanSeeOtherGuests = ''true'',
                                  anyoneCanAddSelf = ''true'',
                                  body_colorId = color m\<rparr>],
                printed = [''Created event.'' @ [NL]],
                raised = None\<rparr>))"

text \<open>
  The end time of \<open>update_event\<close>, from the parsed end of the existing event to the
  value that is formatted and compared, with what is printed on the way.
\<close>

definition update_event_end :: "settings \<Rightarrow> match \<Rightarrow> datetime \<Rightarrow> datetime \<Rightarrow> string list \<times> (error + datetime)" where
  "update_event_end cfg m event_time_end now =
     (case plus_minutes (time_start m) (MATCH_DEFAULT_DURATION_MINUTES cfg) of
        Inl e \<Rightarrow> ([], Inl e)
      | Inr expected_duration \<Rightarrow>
          let adjust = dt_lt event_time_end expected_duration;
              p = (if adjust then [TAB # ''Adjusting end time.'' @ [NL]] else []);
              end1 = (if adjust then expected_duration else event_time_end)
          in if is_still_going m \<and> dt_lt end1 now
             then (p @ [TAB # ''Extending end as it is still going.'' @ [NL]],
                   plus_minutes now (MATCH_EXTEND_MINUTES cfg))
             else (p, Inr end1))"

definition update_event :: "settings \<Rightarrow> (event \<Rightarrow> event) \<Rightarrow> match \<Rightarrow> event \<Rightarrow> datetime \<Rightarrow> event \<times> run" where
  "update_event cfg svc m existing_event now =
     (let match_time_start = isoformat (time_start m) in
      case from_google_date_to_datetime (end_dateTime existing_event) of
        Inl e \<Rightarrow> (existing_event, \<lparr>calls = [], printed = [], raised = Some e\<rparr>)
      | Inr parsed_end \<Rightarrow>
          (case update_event_end cfg m parsed_end now of
             (p, Inl e) \<Rightarrow> (existing_event, \<lparr>calls = [], printed = p, raised = Some e\<rparr>)
           | (p, Inr end_dt) \<Rightarrow>
               let event_time_end = isoformat end_dt in
               if different_start_times existing_event match_time_start
                  \<or> different_end_times existing_event event_time_end
                  \<or> different_colors existing_event (color m)
               then
                 let old_start = start_dateTime existing_event;
                     old_end = end_dateTime existing_event;
                     old_color = colorId existing_event;
                     updated = existing_event\<lparr>start_dateTime := match_time_start,
                                              end_dateTime := event_time_end,
                                              colorId := color m\<rparr>;
                     update_result = svc updated
                 in (case show_if_different ''start'' old_start (start_dateTime update_result) True of
                       Inl e \<Rightarrow> (updated, \<lparr>calls = [Update updated], printed = p, raised = Some e\<rparr>)
                     | Inr s1 \<Rightarrow>
                     (case show_if_different ''end'' old_end (end_dateTime update_result) True of
                       Inl e \<Rightarrow> (updated, \<lparr>calls = [Update updated], printed = p, raised = Some e\<rparr>)
                     | Inr s2 \<Rightarrow>
                     (case show_if_different ''status'' (status_from_color m old_color)
                             (status_from_color m (color m)) False of
                       Inl e \<Rightarrow> (updated, \<lparr>calls = [Update updated], printed = p, raised = Some e\<rparr>)
                     | Inr s3 \<Rightarrow>
                         (updated,
                          \<lparr>calls = [Update updated],
                           printed = p @ [TAB # ''Updated event:'' @ [NL] @ '' '' @ s1 @ '' '' @ s2
                                          @ '' '' @ s3],
                           raised = None\<rparr>))))
               else (existing_event,
                     \<lparr>calls = [], printed = p @ [TAB # ''No change.'' @ [NL]], raised = None\<rparr>)))"

definition update_finished_event :: "settings \<Rightarrow> (event \<Rightarrow> event) \<Rightarrow> match \<Rightarrow> event \<Rightarrow> datetime \<Rightarrow> event \<times> run" where
  "update_finished_event cfg svc m existing_event now =
     (case from_google_date_to_datetime (start_dateTime existing_event) of
        Inl e \<Rightarrow> (existing_event, \<lparr>calls = [], printed = [], raised = Some e\<rparr>)
      | Inr event_time_start \<Rightarrow>
     (case from_google_date_to_datetime (end_dateTime existing_event) of
        Inl e \<Rightarrow> (existing_event, \<lparr>calls = [], printed = [], raised = Some e\<rparr>)
      | Inr event_time_end \<Rightarrow>
          if dt_lt now event_time_end \<and> dt_lt event_time_start now
          then
            let old_end = end_dateTime existing_event;
                old_color = colorId existing_event;
                updated = existing_event\<lparr>end_dateTime := isoformat now, colorId := color m\<rparr>;
                update_result = svc updated
            in (case show_if_different ''end'' old_end (end_dateTime update_result) False of
                  Inl e \<Rightarrow> (updated, \<lparr>calls = [Update updated], printed = [], raised = Some e\<rparr>)
                | Inr s1 \<Rightarrow>
                (case show_if_different ''status'' (status_from_color m old_color)
                        (status_from_color m (color m)) False of
                  Inl e \<Rightarrow> (updated, \<lparr>calls = [Update updated], printed = [], raised = Some e\<rparr>)
                | Inr s2 \<Rightarrow>
                    (updated,
                     \<lparr>calls = [Update updated],
                      printed = [TAB # ''Updated finished event:'' @ [NL] @ '' '' @ s1 @ '' '' @ s2],
                      raised = None\<rparr>)))
          else if colorId existing_event \<noteq> color m
          then
            let old_color = colorId existing_event;
                updated = existing_event\<lparr>colorId := color m\<rparr>;
                update_result = svc updated
            in (case show_if_different ''status'' (status_from_color m old_color)
                       (status_from_color m (color m)) False of
                  Inl e \<Rightarrow> (updated, \<lparr>calls = [Update updated], printed = [], raised = Some e\<rparr>)
                | Inr s \<Rightarrow>
                    (updated,
                     \<lparr>calls = [Update updated],
                      printed = [TAB # ''Updated finished event color:'' @ [NL] @ '' '' @ s],
                      raised = None\<rparr>))
          else (existing_event,
                \<lparr>calls = [], printed = [TAB # ''Finished. No changes.'' @ [NL]], raised = None\<rparr>)))"

text \<open>
  The loop of \<open>update_calendar_events\<close> over the matches, on the events the provider
  listed. The \<open>i\<close>-th match reads the clock once, as \<open>clock i\<close>. An update changes the
  listed event in place, so the matches after it see the changed event.
\<close>

fun for_matches :: "settings \<Rightarrow> (event \<Rightarrow> event) \<Rightarrow> (nat \<Rightarrow> datetime) \<Rightarrow> nat \<Rightarrow> event list \<Rightarrow> match list \<Rightarrow> run" where
  "for_matches cfg svc clock i events [] = \<lparr>calls = [], printed = [], raised = None\<rparr>"
| "for_matches cfg svc clock i events (m # ms) =
     (let match_event = filter (\<lambda>ev. summary ev = name m) events in
      if length match_event > 1
      then \<lparr>calls = [], printed = [], raised = Some MoreThanOneEvent\<rparr>
      else
        let head = \<lparr>calls = [], printed = [''Match:  '' @ name m @ [NL]], raised = None\<rparr> in
        case match_event of
          [] \<Rightarrow>
            then_run head
              (then_run (create_event cfg m (clock i))
                 (for_matches cfg svc clock (Suc i) events ms))
        | ev # _ \<Rightarrow>
            let (ev', r) = (if is_finished m
                            then update_finished_event cfg svc m ev (clock i)
                            else update_event cfg svc m ev (clock i));
                events' = map (\<lambda>e. if summary e = name m then ev' else e) events
            in then_run head (then_run r (for_matches cfg svc clock (Suc i) events' ms)))"

definition update_calendar_events :: "settings \<Rightarrow> (event \<Rightarrow> event) \<Rightarrow> (nat \<Rightarrow> datetime) \<Rightarrow> event list \<Rightarrow> match list \<Rightarrow> run" where
  "update_calendar_events cfg svc clock events matches =
     then_run \<lparr>calls = [], printed = [''Retrieved events for calendar.'' @ [NL]], raised = None\<rparr>
       (for_matches cfg svc clock 0 events matches)"

section \<open>Examples\<close>

text \<open>
  A default duration of 90 minutes and an extension of 20, a match at 14:00 on 1 May 2024,
  and its event as the provider lists it.
\<close>

definition cfg_example :: settings where
  "cfg_example = \<lparr>MATCH_DEFAULT_DURATION_MINUTES = 90, MATCH_EXTEND_MINUTES = 20\<rparr>"

definition status_example :: "string \<Rightarrow> string" where
  "status_example c =
     (if c = ''2'' then ''NOT_STARTED'' else if c = ''10'' then ''LIVE''
      else if c = ''3'' then ''FINISHED'' else ''UNKNOWN'')"

definition match_example :: match where
  "match_example =
     \<lparr>name = ''A vs B'', time_start = utc_datetime 2024 5 1 14 0 0 0, is_still_going = False,
      is_finished = False, color = ''2'', status_from_color = status_example\<rparr>"

definition live_example :: match where
  "live_example = match_example\<lparr>is_still_going := True, color := ''10''\<rparr>"

definition finished_example :: match where
  "finished_example = match_example\<lparr>is_finished := True, color := ''3''\<rparr>"

definition event_example :: event where
  "event_example =
     \<lparr>ev_id = ''e1'', summary = ''A vs B'', start_dateTime = ''2024-05-01T14:00:00Z'',
      end_dateTime = ''2024-05-01T15:30:00Z'', colorId = ''2''\<rparr>"

text \<open>The live example with its start moved an hour earlier.\<close>

definition moved_earlier_example :: match where
  "moved_earlier_example = live_example\<lparr>time_start := utc_datetime 2024 5 1 13 0 0 0\<rparr>"

text \<open>A second match, with no event, and a calendar that lists two events named alike.\<close>

definition other_example :: match where
  "other_example = match_example\<lparr>name := ''C vs D''\<rparr>"

definition duplicate_events :: "event list" where
  "duplicate_events = [event_example, event_example\<lparr>ev_id := ''e2''\<rparr>]"

definition clock_example :: "nat \<Rightarrow> datetime" where
  "clock_example i = utc_datetime 2024 5 1 13 0 0 0"

section \<open>The end-time policy in the words of the specification\<close>


section \<open>The part of \<open>isoformat\<close> up to the seconds\<close>

text \<open>The date and time that \<open>isoformat\<close> writes before the microseconds and the offset.\<close>

definition iso_seconds :: "datetime \<Rightarrow> string" where
  "iso_seconds d =
     (let l = local_us d;
          ymd = ord2ymd (l div US_PER_DAY + 1);
          s = l mod US_PER_DAY div 1000000
      in pad4 (fst ymd) @ ''-'' @ pad2 (fst (snd ymd)) @ ''-'' @ pad2 (snd (snd ymd)) @ ''T''
         @ pad2 (s div 3600) @ '':'' @ pad2 (s mod 3600 div 60) @ '':'' @ pad2 (s mod 60))"

section \<open>Properties of the text and time functions\<close>

lemma rfind_plus_suffix: "rfind (x @ ''+00:00'') (CHR ''+'') = int (length x)"
  by (simp add: rfind_def)

lemma slice_to_append: "slice_to (x @ y) (int (length x)) = x"
  by (simp add: slice_to_def)

lemma slice_to_butlast: "slice_to (x @ [c]) (- 1) = x"
  by (simp add: slice_to_def)

lemma plus_minutes_utc_us:
  "plus_minutes d k = Inr d' \<Longrightarrow> utc_us d' = utc_us d + k * 60000000 \<and> utcoff d' = utcoff d"
  by (auto simp: plus_minutes_def split: if_splits)

section \<open>Creation\<close>

text \<open>
  C2. With no existing event, \<open>create_event\<close> inserts one event whose start is the
  match's start, whose colour is the match's colour, and whose end is the start plus the
  default duration, or, when the match is still going and that baseline is before now,
  now plus the extension. (The additions are assumed to stay within the years a datetime
  can hold.)
\<close>

theorem create_event_fields:
  assumes "plus_minutes (time_start m) (MATCH_DEFAULT_DURATION_MINUTES cfg) = Inr baseline"
    and "is_still_going m \<and> dt_lt baseline now
         \<longrightarrow> plus_minutes now (MATCH_EXTEND_MINUTES cfg) = Inr extended"
  shows "create_event cfg m now =
           \<lparr>calls = [Insert \<lparr>body_summary = name m,
                              body_start = isoformat (time_start m),
                              body_end = isoformat (if is_still_going m \<and> dt_lt baseline now
                                                    then extended else baseline),
                              maxAttendees = ''100'',
                              guestsCanInviteOthers = ''true'',
                              guestsCanSeeOtherGuests = ''true'',
                              anyoneCanAddSelf = ''true'',
                              body_colorId = color m\<rparr>],
            printed = [''Created event.'' @ [NL]],
            raised = None\<rparr>
         \<and> utc_us baseline = utc_us (time_start m) + MATCH_DEFAULT_DURATION_MINUTES cfg * 60000000
         \<and> (is_still_going m \<and> dt_lt baseline now
              \<longrightarrow> utc_us extended = utc_us now + MATCH_EXTEND_MINUTES cfg * 60000000)"
  using assms plus_minutes_utc_us[of "time_start m" _ baseline] plus_minutes_utc_us[of now _ extended]
  by (auto simp: create_event_def)

text \<open>
  The match at 14:00 that is not live gets the end 15:30; the same match, live at 15:40,
  gets the end 16:00.
\<close>

theorem create_event_fields_witness:
  "calls (create_event cfg_example match_example (utc_datetime 2024 5 1 13 0 0 0)) =
     [Insert \<lparr>body_summary = ''A vs B'',
              body_start = ''2024-05-01T14:00:00+00:00'',
              body_end = ''2024-05-01T15:30:00+00:00'',
              maxAttendees = ''100'',
              guestsCanInviteOthers = ''true'',
              guestsCanSeeOtherGuests = ''true'',
              anyoneCanAddSelf = ''true'',
              body_colorId = ''2''\<rparr>]
   \<and> calls (create_event cfg_example live_example (utc_datetime 2024 5 1 15 40 0 0)) =
     [Insert \<lparr>body_summary = ''A vs B'',
              body_start = ''2024-05-01T14:00:00+00:00'',
              body_end = ''2024-05-01T16:00:00+00:00'',
              maxAttendees = ''100'',
              guestsCanInviteOthers = ''true'',
              guestsCanSeeOtherGuests = ''true'',
              anyoneCanAddSelf = ''true'',
              body_colorId = ''10''\<rparr>]"
proof -
  let ?base = "utc_datetime 2024 5 1 15 30 0 0"
  let ?now1 = "utc_datetime 2024 5 1 13 0 0 0"
  let ?now2 = "utc_datetime 2024 5 1 15 40 0 0"
  let ?ext = "utc_datetime 2024 5 1 16 0 0 0"
  have a1: "plus_minutes (time_start match_example) (MATCH_DEFAULT_DURATION_MINUTES cfg_example)
              = Inr ?base"
    by code_simp
  have a2: "is_still_going match_example \<and> dt_lt ?base ?now1
              \<longrightarrow> plus_minutes ?now1 (MATCH_EXTEND_MINUTES cfg_example) = Inr ?ext"
    by code_simp
  have b1: "plus_minutes (time_start live_example) (MATCH_DEFAULT_DURATION_MINUTES cfg_example)
              = Inr ?base"
    by code_simp
  have b2: "is_still_going live_example \<and> dt_lt ?base ?now2
              \<longrightarrow> plus_minutes ?now2 (MATCH_EXTEND_MINUTES cfg_example) = Inr ?ext"
    by code_simp
  have e: "isoformat (time_start match_example) = ''2024-05-01T14:00:00+00:00''"
    "isoformat (time_start live_example) = ''2024-05-01T14:00:00+00:00''"
    "isoformat (if is_still_going match_example \<and> dt_lt ?base ?now1 then ?ext else ?base)
       = ''2024-05-01T15:30:00+00:00''"
    "isoformat (if is_still_going live_example \<and> dt_lt ?base ?now2 then ?ext else ?base)
       = ''2024-05-01T16:00:00+00:00''"
    by code_simp+
  have f: "name match_example = ''A vs B''" "color match_example = ''2''"
    "name live_example = ''A vs B''" "color live_example = ''10''"
    by (simp_all add: match_example_def live_example_def)
  show ?thesis
    using create_event_fields[OF a1 a2] create_event_fields[OF b1 b2] by (simp add: e f)
qed

section \<open>Finished matches\<close>



section \<open>Updating the event of a match that is not finished\<close>



section \<open>The end time never moves back\<close>

lemma update_event_end_not_earlier:
  assumes "0 \<le> MATCH_EXTEND_MINUTES cfg"
    and "snd (update_event_end cfg m existing now) = Inr e"
  shows "dt_le existing e"
proof (cases "plus_minutes (time_start m) (MATCH_DEFAULT_DURATION_MINUTES cfg)")
  case (Inl err)
  with assms(2) show ?thesis by (simp add: update_event_end_def)
next
  case (Inr expected)
  let ?end1 = "if dt_lt existing expected then expected else existing"
  have 1: "dt_le existing ?end1"
    by (simp add: dt_le_def dt_lt_def)
  show ?thesis
  proof (cases "is_still_going m \<and> dt_lt ?end1 now")
    case True
    with assms(2) Inr have "plus_minutes now (MATCH_EXTEND_MINUTES cfg) = Inr e"
      by (simp add: update_event_end_def Let_def)
    from plus_minutes_utc_us[OF this] assms(1) have "utc_us now \<le> utc_us e"
      by simp
    with True 1 show ?thesis
      by (auto simp: dt_le_def dt_lt_def split: if_splits)
  next
    case False
    with assms(2) Inr have "e = ?end1"
      by (auto simp: update_event_end_def Let_def)
    with 1 show ?thesis by simp
  qed
qed

text \<open>
  C6. With a non-negative extension setting, the end time that the update path computes is
  never earlier than the existing end it was given, whatever the match's state, start and
  the time are. So applying it at a time \<open>t1\<close> and again at \<open>t2\<close> to the
  result gives ends that never decrease, also when the match's start has moved earlier in
  between.
\<close>

theorem update_event_end_monotonic:
  assumes "0 \<le> MATCH_EXTEND_MINUTES cfg"
    and "snd (update_event_end cfg m1 e0 t1) = Inr e1"
    and "snd (update_event_end cfg m2 e1 t2) = Inr e2"
  shows "dt_le e0 e1 \<and> dt_le e1 e2"
  using assms update_event_end_not_earlier by blast

theorem update_event_end_monotonic_witness:
  "0 \<le> MATCH_EXTEND_MINUTES cfg_example
   \<and> snd (update_event_end cfg_example live_example (utc_datetime 2024 5 1 15 30 0 0)
              (utc_datetime 2024 5 1 15 40 0 0)) = Inr (utc_datetime 2024 5 1 16 0 0 0)
   \<and> snd (update_event_end cfg_example live_example (utc_datetime 2024 5 1 16 0 0 0)
              (utc_datetime 2024 5 1 16 10 0 0)) = Inr (utc_datetime 2024 5 1 16 30 0 0)
   \<and> snd (update_event_end cfg_example moved_earlier_example (utc_datetime 2024 5 1 16 0 0 0)
              (utc_datetime 2024 5 1 15 40 0 0)) = Inr (utc_datetime 2024 5 1 16 0 0 0)
   \<and> dt_le (utc_datetime 2024 5 1 15 30 0 0) (utc_datetime 2024 5 1 16 0 0 0)
   \<and> dt_le (utc_datetime 2024 5 1 16 0 0 0) (utc_datetime 2024 5 1 16 30 0 0)
   \<and> dt_le (utc_datetime 2024 5 1 16 0 0 0) (utc_datetime 2024 5 1 16 0 0 0)"
proof -
  let ?e0 = "utc_datetime 2024 5 1 15 30 0 0"
  let ?e1 = "utc_datetime 2024 5 1 16 0 0 0"
  let ?e2 = "utc_datetime 2024 5 1 16 30 0 0"
  let ?t1 = "utc_datetime 2024 5 1 15 40 0 0"
  let ?t2 = "utc_datetime 2024 5 1 16 10 0 0"
  have a0: "0 \<le> MATCH_EXTEND_MINUTES cfg_example"
    by code_simp
  have a1: "snd (update_event_end cfg_example live_example ?e0 ?t1) = Inr ?e1"
    by code_simp
  have a2: "snd (update_event_end cfg_example live_example ?e1 ?t2) = Inr ?e2"
    by code_simp
  have a3: "snd (update_event_end cfg_example moved_earlier_example ?e1 ?t1) = Inr ?e1"
    by code_simp
  show ?thesis
    using a0 a1 a2 a3 update_event_end_monotonic[OF a0 a1 a2]
      update_event_end_monotonic[OF a0 a1 a3]
    by simp
qed

section \<open>Comparing stored and new timestamps\<close>

text \<open>
  C4, as amended. The comparison is one of texts: the stored timestamp without its last
  character against the new timestamp without its suffix \<open>+00:00\<close>. So a stored
  timestamp spelled with \<open>Z\<close> and a new one spelled with \<open>+00:00\<close> are judged equal
  exactly when the texts before the suffixes are the same, for the start and for the end.
\<close>

theorem textual_comparison:
  "different_start_times (old\<lparr>start_dateTime := a @ [c]\<rparr>) (b @ ''+00:00'') = (a \<noteq> b)
   \<and> different_end_times (old\<lparr>end_dateTime := a @ [c]\<rparr>) (b @ ''+00:00'') = (a \<noteq> b)"
  by (simp add: different_start_times_def different_end_times_def rfind_plus_suffix
      slice_to_append slice_to_butlast)

text \<open>\<open>2024-05-01T10:00:00Z\<close> against \<open>2024-05-01T10:00:00+00:00\<close> is judged equal.\<close>

theorem textual_comparison_witness:
  "\<not> different_start_times (event_example\<lparr>start_dateTime := ''2024-05-01T10:00:00Z''\<rparr>)
        ''2024-05-01T10:00:00+00:00''
   \<and> \<not> different_end_times (event_example\<lparr>end_dateTime := ''2024-05-01T10:00:00Z''\<rparr>)
        ''2024-05-01T10:00:00+00:00''"
  using textual_comparison[where old = event_example and a = "''2024-05-01T10:00:00''"
      and c = "CHR ''Z''" and b = "''2024-05-01T10:00:00''"]
  by simp

text \<open>
  The claim as stated fails: a stored timestamp spelled with \<open>+00:00\<close> is judged
  different from the very same text, though both denote one instant; and a new timestamp
  with microseconds is judged different from the stored one of the same second.
\<close>

theorem same_instant_judged_different:
  "from_google_date_to_datetime ''2024-05-01T10:00:00+00:00''
     = from_google_date_to_datetime ''2024-05-01T10:00:00Z''
   \<and> different_start_times (event_example\<lparr>start_dateTime := ''2024-05-01T10:00:00+00:00''\<rparr>)
        ''2024-05-01T10:00:00+00:00''
   \<and> from_google_date_to_datetime ''2024-05-01T10:00:00Z''
        = Inr (utc_datetime 2024 5 1 10 0 0 0)
   \<and> utc_us (utc_datetime 2024 5 1 10 0 0 250000) div 1000000
        = utc_us (utc_datetime 2024 5 1 10 0 0 0) div 1000000
   \<and> isoformat (utc_datetime 2024 5 1 10 0 0 250000) = ''2024-05-01T10:00:00.250000+00:00''
   \<and> different_end_times (event_example\<lparr>end_dateTime := ''2024-05-01T10:00:00Z''\<rparr>)
        (isoformat (utc_datetime 2024 5 1 10 0 0 250000))"
  by code_simp

section \<open>The loop over the matches\<close>

lemma summary_update_event: "summary (fst (update_event cfg svc m ev now)) = summary ev"
  by (simp add: update_event_def Let_def split: sum.splits prod.splits)

lemma summary_update_finished_event:
  "summary (fst (update_finished_event cfg svc m ev now)) = summary ev"
  by (simp add: update_finished_event_def Let_def split: sum.splits prod.splits)

lemma filter_summary_map:
  assumes "summary ev' = n'"
  shows "filter (\<lambda>e. summary e = n) (map (\<lambda>e. if summary e = n' then ev' else e) events)
         = map (\<lambda>e. if summary e = n' then ev' else e) (filter (\<lambda>e. summary e = n) events)"
  using assms by (induction events) auto

lemma raised_then_run: "raised (then_run a b) = (if raised a = None then raised b else raised a)"
  by (simp add: then_run_def)

lemma calls_then_run:
  "calls (then_run a b) = (if raised a = None then calls a @ calls b else calls a)"
  by (simp add: then_run_def)

lemma then_run_stop:
  "raised a = None \<Longrightarrow> raised b = None \<Longrightarrow> then_run a (b\<lparr>raised := Some e\<rparr>) = (then_run a b)\<lparr>raised := Some e\<rparr>"
  by (simp add: then_run_def)

lemma for_matches_conflict:
  assumes "1 < length (filter (\<lambda>ev. summary ev = name m) events)"
    and "raised (for_matches cfg svc clock i events pre) = None"
  shows "for_matches cfg svc clock i events (pre @ m # post)
         = (for_matches cfg svc clock i events pre)\<lparr>raised := Some MoreThanOneEvent\<rparr>"
  using assms
proof (induction pre arbitrary: i events)
  case Nil
  then show ?case by simp
next
  case (Cons p pre)
  let ?me = "filter (\<lambda>ev. summary ev = name p) events"
  have small: "\<not> 1 < length ?me"
    using Cons.prems(2) by (auto simp: Let_def split: if_splits)
  show ?case
  proof (cases ?me)
    case Nil
    let ?c = "create_event cfg p (clock i)"
    from Cons.prems(2) Nil have r: "raised ?c = None"
      "raised (for_matches cfg svc clock (Suc i) events pre) = None"
      by (auto simp: Let_def raised_then_run split: if_splits)
    from Cons.IH[OF Cons.prems(1) r(2)] Nil r show ?thesis
      by (simp add: Let_def then_run_stop raised_then_run)
  next
    case (Cons ev rest)
    obtain ev' r where u: "(if is_finished p
                            then update_finished_event cfg svc p ev (clock i)
                            else update_event cfg svc p ev (clock i)) = (ev', r)"
      by force
    have s: "summary ev' = summary ev"
      using u summary_update_event[of cfg svc p ev "clock i"]
        summary_update_finished_event[of cfg svc p ev "clock i"]
      by (auto split: if_splits)
    have sn: "summary ev = name p"
      using Cons by (metis (mono_tags, lifting) filter_eq_ConsD)
    let ?events' = "map (\<lambda>e. if summary e = name p then ev' else e) events"
    have "length (filter (\<lambda>ev. summary ev = name m) ?events')
          = length (filter (\<lambda>ev. summary ev = name m) events)"
      using s sn by (simp add: filter_summary_map)
    with Cons.prems(1) have c': "1 < length (filter (\<lambda>ev. summary ev = name m) ?events')"
      by simp
    from Cons.prems(2) Cons small u have rr: "raised r = None"
      "raised (for_matches cfg svc clock (Suc i) ?events' pre) = None"
      by (auto simp: Let_def raised_then_run split: if_splits)
    from Cons.IH[OF c' rr(2)] Cons small u rr show ?thesis
      by (simp add: Let_def then_run_stop raised_then_run)
  qed
qed

text \<open>
  C7, as amended. When more than one listed event has the name of a match, the check in
  the loop raises, and the exception is not caught: it ends the whole batch. If the
  matches before that match ran without an exception, the run ends with this error, its
  calls are exactly the calls made for the matches before, and the matches after it play
  no part (the run is the same without them).
\<close>

theorem correlation_conflict_stops_batch:
  assumes "1 < length (filter (\<lambda>ev. summary ev = name m) events)"
    and "raised (update_calendar_events cfg svc clock events pre) = None"
  shows "raised (update_calendar_events cfg svc clock events (pre @ m # post))
           = Some MoreThanOneEvent
         \<and> calls (update_calendar_events cfg svc clock events (pre @ m # post))
           = calls (update_calendar_events cfg svc clock events pre)
         \<and> update_calendar_events cfg svc clock events (pre @ m # post)
           = update_calendar_events cfg svc clock events (pre @ [m])"
proof -
  from assms(2) have r: "raised (for_matches cfg svc clock 0 events pre) = None"
    by (simp add: update_calendar_events_def raised_then_run)
  have "for_matches cfg svc clock 0 events (pre @ m # post)
        = (for_matches cfg svc clock 0 events pre)\<lparr>raised := Some MoreThanOneEvent\<rparr>"
    "for_matches cfg svc clock 0 events (pre @ [m])
        = (for_matches cfg svc clock 0 events pre)\<lparr>raised := Some MoreThanOneEvent\<rparr>"
    using for_matches_conflict[OF assms(1) r] by simp_all
  then show ?thesis
    by (simp add: update_calendar_events_def then_run_def)
qed

text \<open>
  With two events named \<open>A vs B\<close>: the match \<open>C vs D\<close> before it gets its event,
  then the batch stops.
\<close>

theorem correlation_conflict_stops_batch_witness:
  "raised (update_calendar_events cfg_example id clock_example duplicate_events
             ([other_example] @ match_example # [live_example])) = Some MoreThanOneEvent
   \<and> calls (update_calendar_events cfg_example id clock_example duplicate_events
             ([other_example] @ match_example # [live_example]))
     = [Insert \<lparr>body_summary = ''C vs D'',
                body_start = ''2024-05-01T14:00:00+00:00'',
                body_end = ''2024-05-01T15:30:00+00:00'',
                maxAttendees = ''100'',
                guestsCanInviteOthers = ''true'',
                guestsCanSeeOtherGuests = ''true'',
                anyoneCanAddSelf = ''true'',
                body_colorId = ''2''\<rparr>]"
proof -
  have a1: "1 < length (filter (\<lambda>ev. summary ev = name match_example) duplicate_events)"
    by code_simp
  have a2: "raised (update_calendar_events cfg_example id clock_example duplicate_events
                      [other_example]) = None"
    by code_simp
  have c: "calls (update_calendar_events cfg_example id clock_example duplicate_events
                      [other_example])
     = [Insert \<lparr>body_summary = ''C vs D'',
                body_start = ''2024-05-01T14:00:00+00:00'',
                body_end = ''2024-05-01T15:30:00+00:00'',
                maxAttendees = ''100'',
                guestsCanInviteOthers = ''true'',
                guestsCanSeeOtherGuests = ''true'',
                anyoneCanAddSelf = ''true'',
                body_colorId = ''2''\<rparr>]"
    by code_simp
  note t = correlation_conflict_stops_batch[OF a1 a2, of "[live_example]"]
  show ?thesis
    by (rule conjI[OF t[THEN conjunct1] trans[OF t[THEN conjunct2, THEN conjunct1] c]])
qed

text \<open>
  The claim as stated fails: with the conflicting match first, the batch raises and makes
  no call, though the remaining match, run alone, would get its event created.
\<close>

theorem conflict_aborts_remaining_matches:
  "raised (update_calendar_events cfg_example id clock_example duplicate_events
             [match_example, other_example]) = Some MoreThanOneEvent
   \<and> calls (update_calendar_events cfg_example id clock_example duplicate_events
             [match_example, other_example]) = []
   \<and> calls (update_calendar_events cfg_example id clock_example duplicate_events
             [other_example])
     = [Insert \<lparr>body_summary = ''C vs D'',
                body_start = ''2024-05-01T14:00:00+00:00'',
                body_end = ''2024-05-01T15:30:00+00:00'',
                maxAttendees = ''100'',
                guestsCanInviteOthers = ''true'',
                guestsCanSeeOtherGuests = ''true'',
                anyoneCanAddSelf = ''true'',
                body_colorId = ''2''\<rparr>]"
  by code_simp

section \<open>Ends are not before starts\<close>

lemma update_event_end_after_start:
  assumes "0 \<le> MATCH_DEFAULT_DURATION_MINUTES cfg" and "0 \<le> MATCH_EXTEND_MINUTES cfg"
    and "snd (update_event_end cfg m existing now) = Inr e"
  shows "dt_le (time_start m) e"
proof (cases "plus_minutes (time_start m) (MATCH_DEFAULT_DURATION_MINUTES cfg)")
  case (Inl err)
  with assms(3) show ?thesis by (simp add: update_event_end_def)
next
  case (Inr expected)
  from plus_minutes_utc_us[OF Inr] assms(1) have s: "utc_us (time_start m) \<le> utc_us expected"
    by simp
  let ?end1 = "if dt_lt existing expected then expected else existing"
  have 1: "utc_us expected \<le> utc_us ?end1"
    by (simp add: dt_lt_def)
  show ?thesis
  proof (cases "is_still_going m \<and> dt_lt ?end1 now")
    case True
    with assms(3) Inr have "plus_minutes now (MATCH_EXTEND_MINUTES cfg) = Inr e"
      by (simp add: update_event_end_def Let_def)
    from plus_minutes_utc_us[OF this] assms(2) have "utc_us now \<le> utc_us e"
      by simp
    moreover from True have "utc_us ?end1 < utc_us now"
      by (simp add: dt_lt_def)
    ultimately show ?thesis using s 1 by (simp add: dt_le_def)
  next
    case False
    with assms(3) Inr have "e = ?end1"
      by (auto simp: update_event_end_def Let_def)
    with s 1 show ?thesis by (simp add: dt_le_def)
  qed
qed

lemma create_event_call:
  assumes "calls (create_event cfg m now) = [Insert b]"
  shows "\<exists>baseline e.
           plus_minutes (time_start m) (MATCH_DEFAULT_DURATION_MINUTES cfg) = Inr baseline
           \<and> (if is_still_going m \<and> dt_lt baseline now
                then plus_minutes now (MATCH_EXTEND_MINUTES cfg) else Inr baseline) = Inr e
           \<and> body_start b = isoformat (time_start m) \<and> body_end b = isoformat e"
  using assms
  by (auto simp: create_event_def split: sum.splits if_splits)

lemma create_end_after_start:
  assumes "0 \<le> MATCH_DEFAULT_DURATION_MINUTES cfg" and "0 \<le> MATCH_EXTEND_MINUTES cfg"
    and "plus_minutes (time_start m) (MATCH_DEFAULT_DURATION_MINUTES cfg) = Inr baseline"
    and "(if is_still_going m \<and> dt_lt baseline now
          then plus_minutes now (MATCH_EXTEND_MINUTES cfg) else Inr baseline) = Inr e"
  shows "dt_le (time_start m) e"
proof -
  from plus_minutes_utc_us[OF assms(3)] assms(1)
  have s: "utc_us (time_start m) \<le> utc_us baseline"
    by simp
  show ?thesis
  proof (cases "is_still_going m \<and> dt_lt baseline now")
    case True
    with assms(4) have "plus_minutes now (MATCH_EXTEND_MINUTES cfg) = Inr e"
      by simp
    from plus_minutes_utc_us[OF this] assms(2) have "utc_us now \<le> utc_us e"
      by simp
    with True s show ?thesis
      by (simp add: dt_le_def dt_lt_def)
  next
    case False
    with assms(4) have "e = baseline" by simp
    with s show ?thesis by (simp add: dt_le_def)
  qed
qed

lemma update_event_call:
  assumes "calls (snd (update_event cfg svc m ev now)) = [Update u]"
  shows "\<exists>parsed e. from_google_date_to_datetime (end_dateTime ev) = Inr parsed
            \<and> snd (update_event_end cfg m parsed now) = Inr e
            \<and> u = ev\<lparr>start_dateTime := isoformat (time_start m),
                      end_dateTime := isoformat e, colorId := color m\<rparr>"
  using assms
  by (auto simp: update_event_def Let_def split: sum.splits prod.splits if_splits)

lemma update_finished_event_call:
  assumes "calls (snd (update_finished_event cfg svc m ev now)) = [Update u]"
  shows "\<exists>s e. from_google_date_to_datetime (start_dateTime ev) = Inr s
           \<and> from_google_date_to_datetime (end_dateTime ev) = Inr e
           \<and> ((dt_lt now e \<and> dt_lt s now
                \<and> u = ev\<lparr>end_dateTime := isoformat now, colorId := color m\<rparr>)
               \<or> (\<not> (dt_lt now e \<and> dt_lt s now) \<and> colorId ev \<noteq> color m
                   \<and> u = ev\<lparr>colorId := color m\<rparr>))"
  using assms
  by (auto simp: update_finished_event_def show_if_different_def Let_def
      split: sum.splits if_splits)

lemma update_event_calls:
  assumes "from_google_date_to_datetime (end_dateTime ev) = Inr parsed"
    and "snd (update_event_end cfg m parsed now) = Inr e"
  shows "calls (snd (update_event cfg svc m ev now)) =
           (if different_start_times ev (isoformat (time_start m))
               \<or> different_end_times ev (isoformat e)
               \<or> different_colors ev (color m)
            then [Update (ev\<lparr>start_dateTime := isoformat (time_start m),
                              end_dateTime := isoformat e, colorId := color m\<rparr>)]
            else [])"
proof -
  from assms(2) obtain p where "update_event_end cfg m parsed now = (p, Inr e)"
    by (cases "update_event_end cfg m parsed now") auto
  then show ?thesis
    by (simp add: update_event_def Let_def assms(1) split: sum.splits)
qed

text \<open>
  The sign of the settings matters: with a default duration of minus 90 minutes the event
  created for the match at 14:00 ends at 12:30.
\<close>

lemma negative_duration_end_before_start:
  "calls (create_event \<lparr>MATCH_DEFAULT_DURATION_MINUTES = - 90, MATCH_EXTEND_MINUTES = 20\<rparr>
            match_example (utc_datetime 2024 5 1 13 0 0 0))
     = [Insert \<lparr>body_summary = ''A vs B'',
                body_start = ''2024-05-01T14:00:00+00:00'',
                body_end = ''2024-05-01T12:30:00+00:00'',
                maxAttendees = ''100'',
                guestsCanInviteOthers = ''true'',
                guestsCanSeeOtherGuests = ''true'',
                anyoneCanAddSelf = ''true'',
                body_colorId = ''2''\<rparr>]
   \<and> plus_minutes (time_start match_example) (- 90) = Inr (utc_datetime 2024 5 1 12 30 0 0)
   \<and> dt_lt (utc_datetime 2024 5 1 12 30 0 0) (time_start match_example)"
  by code_simp

text \<open>
  C8. With non-negative duration and extension settings, every end time sent to the
  provider is at or after the start of the same event. On creation the start sent is the
  text of the match's start, and the end sent is the text of the end that \<open>create_event\<close>
  computes, which is not before the match's start. On the update of a match that is not
  finished, the start sent is the text of the match's start, and the end sent is the text of
  the end that \<open>update_event\<close> computes from the stored end, which is not before the
  match's start. On the update of a finished match the start is the stored one, left as it
  is, and the end is either now, which the guard puts after the stored start, or the stored
  end left as it is (the colour-only update), which is not before the stored start when the
  stored event was ordered.
\<close>

theorem sent_end_not_before_start:
  assumes "0 \<le> MATCH_DEFAULT_DURATION_MINUTES cfg" and "0 \<le> MATCH_EXTEND_MINUTES cfg"
  shows "(calls (create_event cfg m now) = [Insert b]
            \<longrightarrow> (\<exists>baseline e.
                   plus_minutes (time_start m) (MATCH_DEFAULT_DURATION_MINUTES cfg) = Inr baseline
                   \<and> (if is_still_going m \<and> dt_lt baseline now
                        then plus_minutes now (MATCH_EXTEND_MINUTES cfg) else Inr baseline) = Inr e
                   \<and> body_start b = isoformat (time_start m) \<and> body_end b = isoformat e
                   \<and> dt_le (time_start m) e))
         \<and> (calls (snd (update_event cfg svc m ev now)) = [Update u]
            \<longrightarrow> (\<exists>parsed e.
                   from_google_date_to_datetime (end_dateTime ev) = Inr parsed
                   \<and> snd (update_event_end cfg m parsed now) = Inr e
                   \<and> u = ev\<lparr>start_dateTime := isoformat (time_start m),
                             end_dateTime := isoformat e, colorId := color m\<rparr>
                   \<and> dt_le (time_start m) e))
         \<and> (from_google_date_to_datetime (start_dateTime ev) = Inr s
            \<and> from_google_date_to_datetime (end_dateTime ev) = Inr stored_end
            \<and> dt_le s stored_end
            \<and> calls (snd (update_finished_event cfg svc m ev now)) = [Update u']
            \<longrightarrow> (\<exists>e. ((u' = ev\<lparr>end_dateTime := isoformat now, colorId := color m\<rparr>
                         \<and> e = now \<and> dt_lt s now)
                        \<or> (u' = ev\<lparr>colorId := color m\<rparr> \<and> e = stored_end))
                      \<and> dt_le s e))"
proof (intro conjI impI)
  assume c: "calls (create_event cfg m now) = [Insert b]"
  from create_event_call[OF c] obtain baseline e where
    1: "plus_minutes (time_start m) (MATCH_DEFAULT_DURATION_MINUTES cfg) = Inr baseline"
    and 2: "(if is_still_going m \<and> dt_lt baseline now
             then plus_minutes now (MATCH_EXTEND_MINUTES cfg) else Inr baseline) = Inr e"
    and 3: "body_start b = isoformat (time_start m) \<and> body_end b = isoformat e"
    by blast
  from create_end_after_start[OF assms 1 2] 1 2 3
  show "\<exists>baseline e.
          plus_minutes (time_start m) (MATCH_DEFAULT_DURATION_MINUTES cfg) = Inr baseline
          \<and> (if is_still_going m \<and> dt_lt baseline now
               then plus_minutes now (MATCH_EXTEND_MINUTES cfg) else Inr baseline) = Inr e
          \<and> body_start b = isoformat (time_start m) \<and> body_end b = isoformat e
          \<and> dt_le (time_start m) e"
    by blast
next
  assume c: "calls (snd (update_event cfg svc m ev now)) = [Update u]"
  from update_event_call[OF c] obtain parsed e where
    1: "from_google_date_to_datetime (end_dateTime ev) = Inr parsed"
    and 2: "snd (update_event_end cfg m parsed now) = Inr e"
    and 3: "u = ev\<lparr>start_dateTime := isoformat (time_start m),
                    end_dateTime := isoformat e, colorId := color m\<rparr>"
    by blast
  from update_event_end_after_start[OF assms 2] 1 2 3
  show "\<exists>parsed e.
          from_google_date_to_datetime (end_dateTime ev) = Inr parsed
          \<and> snd (update_event_end cfg m parsed now) = Inr e
          \<and> u = ev\<lparr>start_dateTime := isoformat (time_start m),
                    end_dateTime := isoformat e, colorId := color m\<rparr>
          \<and> dt_le (time_start m) e"
    by blast
next
  assume h: "from_google_date_to_datetime (start_dateTime ev) = Inr s
            \<and> from_google_date_to_datetime (end_dateTime ev) = Inr stored_end
            \<and> dt_le s stored_end
            \<and> calls (snd (update_finished_event cfg svc m ev now)) = [Update u']"
  then have c: "calls (snd (update_finished_event cfg svc m ev now)) = [Update u']"
    by simp
  from update_finished_event_call[OF c] h
  have "(dt_lt now stored_end \<and> dt_lt s now
          \<and> u' = ev\<lparr>end_dateTime := isoformat now, colorId := color m\<rparr>)
        \<or> (\<not> (dt_lt now stored_end \<and> dt_lt s now) \<and> colorId ev \<noteq> color m
            \<and> u' = ev\<lparr>colorId := color m\<rparr>)"
    by auto
  then show "\<exists>e. ((u' = ev\<lparr>end_dateTime := isoformat now, colorId := color m\<rparr>
                  \<and> e = now \<and> dt_lt s now)
                 \<or> (u' = ev\<lparr>colorId := color m\<rparr> \<and> e = stored_end))
               \<and> dt_le s e"
  proof
    assume "dt_lt now stored_end \<and> dt_lt s now
            \<and> u' = ev\<lparr>end_dateTime := isoformat now, colorId := color m\<rparr>"
    then have "(u' = ev\<lparr>end_dateTime := isoformat now, colorId := color m\<rparr>
                \<and> now = now \<and> dt_lt s now) \<and> dt_le s now"
      by (simp add: dt_le_def dt_lt_def)
    then show ?thesis by blast
  next
    assume "\<not> (dt_lt now stored_end \<and> dt_lt s now) \<and> colorId ev \<noteq> color m
            \<and> u' = ev\<lparr>colorId := color m\<rparr>"
    with h have "(u' = ev\<lparr>colorId := color m\<rparr> \<and> stored_end = stored_end)
                 \<and> dt_le s stored_end"
      by simp
    then show ?thesis by blast
  qed
qed

text \<open>
  The live match created at 15:40, the same match updated at 15:40 from the listed event,
  and the finished match updated at 15:10: the ends sent are 16:00, 16:00 and 15:10, after
  the start at 14:00.
\<close>

theorem sent_end_not_before_start_witness:
  "0 \<le> MATCH_DEFAULT_DURATION_MINUTES cfg_example \<and> 0 \<le> MATCH_EXTEND_MINUTES cfg_example
   \<and> calls (create_event cfg_example live_example (utc_datetime 2024 5 1 15 40 0 0))
       = [Insert \<lparr>body_summary = ''A vs B'',
                  body_start = ''2024-05-01T14:00:00+00:00'',
                  body_end = ''2024-05-01T16:00:00+00:00'',
                  maxAttendees = ''100'',
                  guestsCanInviteOthers = ''true'',
                  guestsCanSeeOtherGuests = ''true'',
                  anyoneCanAddSelf = ''true'',
                  body_colorId = ''10''\<rparr>]
   \<and> (\<exists>baseline e.
         plus_minutes (time_start live_example) (MATCH_DEFAULT_DURATION_MINUTES cfg_example)
           = Inr baseline
         \<and> (if is_still_going live_example \<and> dt_lt baseline (utc_datetime 2024 5 1 15 40 0 0)
              then plus_minutes (utc_datetime 2024 5 1 15 40 0 0) (MATCH_EXTEND_MINUTES cfg_example)
              else Inr baseline) = Inr e
         \<and> ''2024-05-01T14:00:00+00:00'' = isoformat (time_start live_example)
         \<and> ''2024-05-01T16:00:00+00:00'' = isoformat e
         \<and> dt_le (time_start live_example) e)
   \<and> calls (snd (update_event cfg_example id live_example event_example
                   (utc_datetime 2024 5 1 15 40 0 0)))
       = [Update \<lparr>ev_id = ''e1'', summary = ''A vs B'',
                  start_dateTime = ''2024-05-01T14:00:00+00:00'',
                  end_dateTime = ''2024-05-01T16:00:00+00:00'', colorId = ''10''\<rparr>]
   \<and> (\<exists>parsed e.
         from_google_date_to_datetime (end_dateTime event_example) = Inr parsed
         \<and> snd (update_event_end cfg_example live_example parsed (utc_datetime 2024 5 1 15 40 0 0))
             = Inr e
         \<and> \<lparr>ev_id = ''e1'', summary = ''A vs B'',
             start_dateTime = ''2024-05-01T14:00:00+00:00'',
             end_dateTime = ''2024-05-01T16:00:00+00:00'', colorId = ''10''\<rparr>
           = event_example\<lparr>start_dateTime := isoformat (time_start live_example),
                            end_dateTime := isoformat e, colorId := color live_example\<rparr>
         \<and> dt_le (time_start live_example) e)
   \<and> calls (snd (update_finished_event cfg_example id finished_example event_example
                   (utc_datetime 2024 5 1 15 10 0 0)))
       = [Update \<lparr>ev_id = ''e1'', summary = ''A vs B'',
                  start_dateTime = ''2024-05-01T14:00:00Z'',
                  end_dateTime = ''2024-05-01T15:10:00+00:00'', colorId = ''3''\<rparr>]
   \<and> dt_lt (utc_datetime 2024 5 1 14 0 0 0) (utc_datetime 2024 5 1 15 10 0 0)
   \<and> dt_le (utc_datetime 2024 5 1 14 0 0 0) (utc_datetime 2024 5 1 15 10 0 0)"
proof -
  let ?now = "utc_datetime 2024 5 1 15 40 0 0"
  let ?now' = "utc_datetime 2024 5 1 15 10 0 0"
  let ?s = "utc_datetime 2024 5 1 14 0 0 0"
  let ?e = "utc_datetime 2024 5 1 15 30 0 0"
  let ?b = "\<lparr>body_summary = ''A vs B'',
                  body_start = ''2024-05-01T14:00:00+00:00'',
                  body_end = ''2024-05-01T16:00:00+00:00'',
                  maxAttendees = ''100'',
                  guestsCanInviteOthers = ''true'',
                  guestsCanSeeOtherGuests = ''true'',
                  anyoneCanAddSelf = ''true'',
                  body_colorId = ''10''\<rparr>"
  let ?u = "\<lparr>ev_id = ''e1'', summary = ''A vs B'',
                  start_dateTime = ''2024-05-01T14:00:00Z'',
                  end_dateTime = ''2024-05-01T15:10:00+00:00'', colorId = ''3''\<rparr>"
  have h0: "0 \<le> MATCH_DEFAULT_DURATION_MINUTES cfg_example"
    and h1: "0 \<le> MATCH_EXTEND_MINUTES cfg_example"
    by code_simp+
  have c1: "calls (create_event cfg_example live_example ?now) = [Insert ?b]"
    by code_simp
  have p1: "from_google_date_to_datetime (start_dateTime event_example) = Inr ?s"
    and p2: "from_google_date_to_datetime (end_dateTime event_example) = Inr ?e"
    and p3: "dt_le ?s ?e"
    by code_simp+
  have c3: "calls (snd (update_finished_event cfg_example id finished_example event_example ?now'))
              = [Update ?u]"
    by code_simp
  let ?ext = "utc_datetime 2024 5 1 16 0 0 0"
  let ?u2 = "\<lparr>ev_id = ''e1'', summary = ''A vs B'',
                  start_dateTime = ''2024-05-01T14:00:00+00:00'',
                  end_dateTime = ''2024-05-01T16:00:00+00:00'', colorId = ''10''\<rparr>"
  have ue: "snd (update_event_end cfg_example live_example ?e ?now) = Inr ?ext"
    by code_simp
  have g: "isoformat ?ext = ''2024-05-01T16:00:00+00:00''"
    "isoformat (time_start live_example) = ''2024-05-01T14:00:00+00:00''"
    "different_end_times event_example ''2024-05-01T16:00:00+00:00''"
    "event_example\<lparr>start_dateTime := ''2024-05-01T14:00:00+00:00'',
        end_dateTime := ''2024-05-01T16:00:00+00:00'', colorId := color live_example\<rparr> = ?u2"
    by code_simp+
  have c2: "calls (snd (update_event cfg_example id live_example event_example ?now))
              = [Update ?u2]"
    using update_event_calls[OF p2 ue, of id] by (simp add: g)
  have b: "body_start ?b = ''2024-05-01T14:00:00+00:00''"
    "body_end ?b = ''2024-05-01T16:00:00+00:00''"
    by simp_all
  note t1 = sent_end_not_before_start[OF h0 h1, where m = live_example and now = ?now
      and b = ?b, THEN conjunct1, rule_format, OF c1, unfolded b]
  note t2 = sent_end_not_before_start[OF h0 h1, where m = live_example and now = ?now
      and svc = id and ev = event_example and u = ?u2,
      THEN conjunct2, THEN conjunct1, rule_format, OF c2]
  note t3 = sent_end_not_before_start[OF h0 h1, where m = finished_example and now = ?now'
      and ev = event_example and svc = id and s = ?s and stored_end = ?e and u' = ?u,
      THEN conjunct2, THEN conjunct2, rule_format, OF conjI[OF p1 conjI[OF p2 conjI[OF p3 c3]]]]
  have f: "?u \<noteq> event_example\<lparr>colorId := color finished_example\<rparr>"
    by code_simp
  from t3 f have o: "dt_lt ?s ?now'" "dt_le ?s ?now'"
    by blast+
  from h0 h1 c1 t1 c2 t2 c3 o show ?thesis
    by (intro conjI)
qed

section \<open>The change report\<close>

text \<open>
  C9. The report of a finished match's update shows the old and the new end, and the
  statuses under their labels, but no line with the difference of the two times:
  \<open>update_finished_event\<close> calls \<open>show_if_different\<close> on the end without
  \<open>time=True\<close>. With the flag the same two values give the third line.
\<close>

theorem finished_report_has_no_diff:
  "printed (snd (update_finished_event cfg_example id finished_example event_example
                   (utc_datetime 2024 5 1 15 10 0 0)))
     = [TAB # ''Updated finished event:'' @ [NL]
        @ '' '' @ [TAB, TAB] @ ''old end: 2024-05-01T15:30:00Z'' @ [NL]
        @ [TAB, TAB] @ ''new end: 2024-05-01T15:10:00+00:00'' @ [NL]
        @ '' '' @ [TAB, TAB] @ ''old status: NOT_STARTED'' @ [NL]
        @ [TAB, TAB] @ ''new status: FINISHED'' @ [NL]]
   \<and> show_if_different ''end'' ''2024-05-01T15:30:00Z'' ''2024-05-01T15:10:00+00:00'' True
     = Inr ([TAB, TAB] @ ''old end: 2024-05-01T15:30:00Z'' @ [NL]
            @ [TAB, TAB] @ ''new end: 2024-05-01T15:10:00+00:00'' @ [NL]
            @ [TAB, TAB] @ ''diff: -1 day, 23:40:00'' @ [NL])
   \<and> show_if_different ''end'' ''2024-05-01T15:30:00Z'' ''2024-05-01T15:30:00Z'' True = Inr []"
  by code_simp

section \<open>Timestamps with fractional seconds do not parse\<close>

lemma of_char_digit_char: "of_char (digit_char n) = (48 + nat (n mod 10) :: nat)"
proof -
  have "nat (n mod 10) < 10" by simp
  then have "(48 + nat (n mod 10)) mod 256 = 48 + nat (n mod 10)" by simp
  then show ?thesis by (simp add: digit_char_def)
qed

lemma is_digit_digit_char: "is_digit (digit_char n)"
proof -
  have "nat (n mod 10) < 10" by simp
  then show ?thesis by (simp add: is_digit_def of_char_digit_char)
qed


lemma digit_char_neq: "\<not> is_digit c \<Longrightarrow> digit_char n \<noteq> c"
  using is_digit_digit_char by auto

lemma not_digit_literals:
  "\<not> is_digit (CHR ''-'')" "\<not> is_digit (CHR '':'')" "\<not> is_digit (CHR ''T'')"
  "\<not> is_digit (CHR ''t'')" "\<not> is_digit (CHR ''.'')" "\<not> is_digit (CHR ''+'')"
  "\<not> is_digit (CHR ''Z'')" "\<not> is_digit (CHR '' '')"
  by (simp_all add: is_digit_def)

lemma directive_z_not_sign:
  "c \<noteq> CHR ''+'' \<Longrightarrow> c \<noteq> CHR ''-'' \<Longrightarrow> directive_z (c # r) = Inl ValueError"
  by (simp add: directive_z_def)

lemma match_date_time_fraction:
  "match_date_time (pad4 y @ ''-'' @ pad2 mo @ ''-'' @ pad2 d @ ''T'' @ pad2 h @ '':''
                    @ pad2 mi @ '':'' @ pad2 s @ ''.'' @ rest) = None
   \<or> (\<exists>y' mo' d' h' mi' s' r.
        match_date_time (pad4 y @ ''-'' @ pad2 mo @ ''-'' @ pad2 d @ ''T'' @ pad2 h @ '':''
                    @ pad2 mi @ '':'' @ pad2 s @ ''.'' @ rest)
        = Some (y', mo', d', h', mi', s', r) \<and> directive_z r = Inl ValueError)"
  using digit_char_neq[OF not_digit_literals(1)] digit_char_neq[OF not_digit_literals(2)]
    digit_char_neq[OF not_digit_literals(3)] digit_char_neq[OF not_digit_literals(4)]
    digit_char_neq[OF not_digit_literals(5)] digit_char_neq[OF not_digit_literals(6)]
    digit_char_neq[OF not_digit_literals(8)]
  by (auto simp: match_date_time_def directive_Y_def directive_d_def num2_def lit_def lit_T_def
      pad2_def pad4_def is_digit_digit_char not_digit_literals directive_z_not_sign
      split: if_splits option.splits)

lemma strptime_fraction:
  "strptime (pad4 y @ ''-'' @ pad2 mo @ ''-'' @ pad2 d @ ''T'' @ pad2 h @ '':''
             @ pad2 mi @ '':'' @ pad2 s @ ''.'' @ rest) = Inl ValueError"
  using match_date_time_fraction[of y mo d h mi s rest]
  by (auto simp: strptime_def simp del: append.simps)

lemma replace_Z_append: "replace_Z (a @ b) = replace_Z a @ replace_Z b"
  by (simp add: replace_Z_def)

lemma replace_Z_no_Z: "CHR ''Z'' \<notin> set s \<Longrightarrow> replace_Z s = s"
  by (induction s) (auto simp: replace_Z_def)

lemma Z_not_digit_char: "CHR ''Z'' \<noteq> digit_char n"
  by (rule not_sym) (rule digit_char_neq[OF not_digit_literals(7)])

lemma no_Z_pads:
  "CHR ''Z'' \<notin> set (pad2 n)" "CHR ''Z'' \<notin> set (pad4 n)" "CHR ''Z'' \<notin> set (pad6 n)"
  by (simp_all add: pad2_def pad4_def pad6_def Z_not_digit_char)

lemma isoformat_iso_seconds:
  "isoformat d = iso_seconds d
     @ (if local_us d mod 1000000 \<noteq> 0 then ''.'' @ pad6 (local_us d mod 1000000) else [])
     @ format_offset (utcoff d)"
proof -
  have "local_us d mod US_PER_DAY mod 1000000 = local_us d mod 1000000"
    by (simp add: US_PER_DAY_def mod_mod_cancel)
  then show ?thesis
    by (simp add: isoformat_def iso_seconds_def Let_def)
qed

lemma no_Z_iso_seconds: "CHR ''Z'' \<notin> set (iso_seconds d)"
  using no_Z_pads by (simp add: iso_seconds_def Let_def)

lemma from_google_fraction:
  assumes "local_us d mod 1000000 \<noteq> 0"
  shows "from_google_date_to_datetime (isoformat d) = Inl ValueError"
proof -
  let ?rest = "replace_Z (pad6 (local_us d mod 1000000) @ format_offset (utcoff d))"
  have "replace_Z (isoformat d) = iso_seconds d @ ''.'' @ ?rest"
    using assms
    by (simp add: isoformat_iso_seconds replace_Z_append replace_Z_no_Z[OF no_Z_iso_seconds])
      (simp add: replace_Z_def)
  then have "from_google_date_to_datetime (isoformat d) = strptime (iso_seconds d @ ''.'' @ ?rest)"
    by (simp add: from_google_date_to_datetime_def)
  also have "\<dots> = Inl ValueError"
    unfolding iso_seconds_def Let_def using strptime_fraction by simp
  finally show ?thesis .
qed

lemma directive_z_error: "directive_z s = Inl e \<Longrightarrow> e = ValueError"
  by (auto simp: directive_z_def Let_def split: list.splits if_splits option.splits prod.splits)

lemma from_google_error: "from_google_date_to_datetime s = Inl e \<Longrightarrow> e = ValueError"
  by (auto simp: from_google_date_to_datetime_def strptime_def
      split: option.splits sum.splits if_splits dest: directive_z_error)

lemma from_google_whole_seconds:
  assumes "from_google_date_to_datetime s = Inr d"
  shows "local_us d mod 1000000 = 0"
proof -
  from assms obtain y m dd hh mi ss off where
    d: "d = \<lparr>utc_us = (((ymd2ord y m dd - 1) * 24 + hh) * 60 + mi) * 60000000 + ss * 1000000 - off,
              utcoff = off\<rparr>"
    by (auto simp: from_google_date_to_datetime_def strptime_def
        split: option.splits sum.splits if_splits)
  have "local_us d = ((((ymd2ord y m dd - 1) * 24 + hh) * 60 + mi) * 60 + ss) * 1000000"
    by (simp add: d local_us_def algebra_simps)
  then show ?thesis by simp
qed

lemma plus_minutes_fraction:
  assumes "plus_minutes d k = Inr d'"
  shows "local_us d' mod 1000000 = local_us d mod 1000000"
proof -
  from plus_minutes_utc_us[OF assms]
  have "local_us d' = local_us d + (k * 60) * 1000000"
    by (simp add: local_us_def)
  then have "local_us d' mod 1000000 = (local_us d + (k * 60) * 1000000) mod 1000000"
    by (rule arg_cong)
  also have "\<dots> = local_us d mod 1000000"
    by (rule mod_mult_self1)
  finally show ?thesis .
qed

lemma update_event_unparsed_end:
  assumes "from_google_date_to_datetime (end_dateTime ev) = Inl ValueError"
  shows "update_event cfg svc m ev now
         = (ev, \<lparr>calls = [], printed = [], raised = Some ValueError\<rparr>)"
  using assms by (simp add: update_event_def Let_def)

lemma update_finished_event_unparsed_end:
  assumes "from_google_date_to_datetime (end_dateTime ev) = Inl ValueError"
  shows "update_finished_event cfg svc m ev now
         = (ev, \<lparr>calls = [], printed = [], raised = Some ValueError\<rparr>)"
proof (cases "from_google_date_to_datetime (start_dateTime ev)")
  case (Inl e)
  with from_google_error[OF Inl] show ?thesis
    by (simp add: update_finished_event_def)
next
  case (Inr s)
  with assms show ?thesis
    by (simp add: update_finished_event_def)
qed

text \<open>
  Claim C10. The parser applied to stored event times accepts whole-second timestamps only:
  every value it returns has a zero microsecond part, and the text that \<open>isoformat\<close>
  writes for a time with a non-zero microsecond part is rejected with \<open>ValueError\<close>.
  The update paths write \<open>isoformat now\<close> or \<open>isoformat (now + MATCH_EXTEND_MINUTES)\<close>
  as the end of the event; when \<open>now\<close> has a non-zero microsecond part both texts carry
  the microseconds, and a later \<open>update_event\<close> or \<open>update_finished_event\<close> on an
  event whose end is one of these texts raises \<open>ValueError\<close> and calls the provider
  not at all.
\<close>

theorem written_microseconds_raise_on_reread:
  assumes "local_us now mod 1000000 \<noteq> 0"
    and "plus_minutes now (MATCH_EXTEND_MINUTES cfg) = Inr extended"
    and "end_dateTime ev = isoformat now \<or> end_dateTime ev = isoformat extended"
  shows "from_google_date_to_datetime (isoformat now) = Inl ValueError
         \<and> from_google_date_to_datetime (isoformat extended) = Inl ValueError
         \<and> update_event cfg svc m ev later
           = (ev, \<lparr>calls = [], printed = [], raised = Some ValueError\<rparr>)
         \<and> update_finished_event cfg svc m ev later
           = (ev, \<lparr>calls = [], printed = [], raised = Some ValueError\<rparr>)
         \<and> (\<forall>s d. from_google_date_to_datetime s = Inr d \<longrightarrow> local_us d mod 1000000 = 0)"
proof -
  have 1: "from_google_date_to_datetime (isoformat now) = Inl ValueError"
    by (rule from_google_fraction[OF assms(1)])
  from plus_minutes_fraction[OF assms(2)] assms(1)
  have "local_us extended mod 1000000 \<noteq> 0" by simp
  then have 2: "from_google_date_to_datetime (isoformat extended) = Inl ValueError"
    by (rule from_google_fraction)
  from assms(3) 1 2 have 3: "from_google_date_to_datetime (end_dateTime ev) = Inl ValueError"
    by auto
  show ?thesis
    using 1 2 update_event_unparsed_end[OF 3] update_finished_event_unparsed_end[OF 3]
      from_google_whole_seconds
    by blast
qed

theorem written_microseconds_raise_on_reread_witness:
  "local_us (utc_datetime 2024 5 1 15 40 0 5) mod 1000000 \<noteq> 0
   \<and> isoformat (utc_datetime 2024 5 1 16 0 0 5) = ''2024-05-01T16:00:00.000005+00:00''
   \<and> from_google_date_to_datetime ''2024-05-01T16:00:00.000005+00:00'' = Inl ValueError
   \<and> from_google_date_to_datetime ''2024-05-01T15:30:00Z'' = Inr (utc_datetime 2024 5 1 15 30 0 0)
   \<and> raised (snd (update_event cfg_example id live_example
                (event_example\<lparr>end_dateTime := ''2024-05-01T16:00:00.000005+00:00''\<rparr>)
                (utc_datetime 2024 5 1 15 41 0 0))) = Some ValueError
   \<and> raised (snd (update_finished_event cfg_example id finished_example
                (event_example\<lparr>end_dateTime := ''2024-05-01T16:00:00.000005+00:00''\<rparr>)
                (utc_datetime 2024 5 1 15 41 0 0))) = Some ValueError"
proof -
  let ?now = "utc_datetime 2024 5 1 15 40 0 5"
  let ?ext = "utc_datetime 2024 5 1 16 0 0 5"
  let ?ev = "event_example\<lparr>end_dateTime := ''2024-05-01T16:00:00.000005+00:00''\<rparr>"
  have a1: "local_us ?now mod 1000000 \<noteq> 0"
    by code_simp
  have a2: "plus_minutes ?now (MATCH_EXTEND_MINUTES cfg_example) = Inr ?ext"
    by code_simp
  have i: "isoformat ?ext = ''2024-05-01T16:00:00.000005+00:00''"
    by code_simp
  have p: "from_google_date_to_datetime ''2024-05-01T15:30:00Z'' = Inr (utc_datetime 2024 5 1 15 30 0 0)"
    by code_simp
  from i have a3: "end_dateTime ?ev = isoformat ?now \<or> end_dateTime ?ev = isoformat ?ext"
    by simp
  note t = written_microseconds_raise_on_reread[OF a1 a2 a3]
  from t[of id live_example "utc_datetime 2024 5 1 15 41 0 0"]
    t[of id finished_example "utc_datetime 2024 5 1 15 41 0 0"] a1 i p
  show ?thesis by simp
qed

section \<open>Reading back a whole-second UTC time\<close>


























section \<open>Reconciling twice\<close>









end
